theory Spec2Isabelle
  imports Main
begin

section \<open>The Turing-machine text editor of hi.py\<close>

text \<open>
  The class \<open>TuringEditor\<close> is a record of its six attributes, and each method is a
  function from the editor before the call to an outcome and the editor after it. An
  exception does not roll anything back in Python, so a call that raises also returns
  the editor as it stood at the raise; the driver catches every exception and goes on
  with that object. A symbol is a \<open>char\<close> (a one-character Python string), the head
  is an \<open>int\<close> as in Python, and the two values that \<open>self.mode\<close> ever takes are the
  constructors of \<open>mode\<close>. \<open>display_tape\<close> and the other \<open>print\<close> calls write to
  the terminal only and are left out.
\<close>

subsection \<open>Python's list and string primitives\<close>

definition py_index :: "nat \<Rightarrow> int \<Rightarrow> nat option" where
  \<comment> \<open>The slot that \<open>xs[i]\<close> names in a list of length \<open>n\<close>; \<open>None\<close> is IndexError.\<close>
  "py_index n i =
     (if 0 \<le> i \<and> i < int n then Some (nat i)
      else if i < 0 \<and> - int n \<le> i then Some (nat (int n + i))
      else None)"

definition py_getitem :: "'a list \<Rightarrow> int \<Rightarrow> 'a option" where
  "py_getitem xs i = (case py_index (length xs) i of None \<Rightarrow> None | Some k \<Rightarrow> Some (xs ! k))"

definition py_setitem :: "'a list \<Rightarrow> int \<Rightarrow> 'a \<Rightarrow> 'a list option" where
  "py_setitem xs i v =
     (case py_index (length xs) i of None \<Rightarrow> None | Some k \<Rightarrow> Some (xs[k := v]))"

definition py_insert :: "'a list \<Rightarrow> int \<Rightarrow> 'a \<Rightarrow> 'a list" where
  \<comment> \<open>\<open>list.insert\<close> never raises: an index past either end is clipped to that end.\<close>
  "py_insert xs i v =
     (let n = int (length xs);
          k = (if i < 0 then max 0 (n + i) else min n i)
      in take (nat k) xs @ [v] @ drop (nat k) xs)"

definition py_pop :: "'a list \<Rightarrow> 'a list option" where
  \<comment> \<open>\<open>list.pop()\<close>: drops the last element; IndexError on the empty list.\<close>
  "py_pop xs = (if xs = [] then None else Some (butlast xs))"

definition py_slice_to :: "'a list \<Rightarrow> int \<Rightarrow> 'a list" where
  \<comment> \<open>\<open>xs[:k]\<close>\<close>
  "py_slice_to xs k = (if k < 0 then take (nat (int (length xs) + k)) xs else take (nat k) xs)"

fun rstrip :: "char \<Rightarrow> string \<Rightarrow> string" where
  \<comment> \<open>\<open>s.rstrip(c)\<close> for a one-character argument\<close>
  "rstrip c [] = []"
| "rstrip c (x # xs) = (case rstrip c xs of [] \<Rightarrow> (if x = c then [] else [x]) | r \<Rightarrow> x # r)"

function replace_scan :: "string \<Rightarrow> string \<Rightarrow> string \<Rightarrow> string" where
  \<comment> \<open>\<open>s.replace(old, new)\<close> for a non-empty \<open>old\<close>: leftmost matches, not overlapping\<close>
  "replace_scan old new [] = []"
| "replace_scan old new (c # cs) =
     (if old \<noteq> [] \<and> take (length old) (c # cs) = old
      then new @ replace_scan old new (drop (length old) (c # cs))
      else c # replace_scan old new cs)"
  by pat_completeness auto
termination
  by (relation "measure (\<lambda>(old, new, s). length s)") (auto simp: neq_Nil_conv)

definition py_replace :: "string \<Rightarrow> string \<Rightarrow> string \<Rightarrow> string" where
  \<comment> \<open>\<open>s.replace(old, new)\<close>; an empty \<open>old\<close> matches before every character and at the end\<close>
  "py_replace s old new =
     (if old = [] then new @ concat (map (\<lambda>c. c # new) s) else replace_scan old new s)"

subsection \<open>The editor\<close>

datatype mode = Insert | Overwrite

type_synonym snapshot = "char list \<times> int \<times> mode"

record editor =
  tape :: "char list"
  head :: int
  state :: string
  mode :: mode
  undo_stack :: "snapshot list"
  redo_stack :: "snapshot list"

datatype outcome =
    Done
  | Deleted char
  | NothingToDelete
  | NothingToUndo
  | NothingToRedo
  | FileNotFound
  | IndexError

definition blank :: char where
  "blank = CHR ''_''"

definition init :: "int \<Rightarrow> editor" where
  \<comment> \<open>\<open>TuringEditor(tape_size)\<close>; \<open>["_"] * n\<close> is empty for a negative \<open>n\<close>\<close>
  "init tape_size =
     \<lparr>tape = replicate (nat tape_size) blank, head = 0, state = ''q0'', mode = Insert,
      undo_stack = [], redo_stack = []\<rparr>"

definition last_nonblank :: "char list \<Rightarrow> int" where
  \<comment> \<open>\<open>max((i for i, c in enumerate(tape) if c != "_"), default=-1)\<close>\<close>
  "last_nonblank t =
     (case map fst (filter (\<lambda>(i, c). c \<noteq> blank) (enumerate 0 t)) of
        [] \<Rightarrow> - 1
      | i # rest \<Rightarrow> int (fold max rest i))"

definition visible_length :: "editor \<Rightarrow> int" where
  "visible_length e = max (last_nonblank (tape e) + 1) (head e + 1)"

definition snap :: "editor \<Rightarrow> snapshot" where
  \<comment> \<open>\<open>(deepcopy(self.tape), self.head, self.mode)\<close>\<close>
  "snap e = (tape e, head e, mode e)"

definition save_state :: "editor \<Rightarrow> editor" where
  "save_state e =
     (let us = undo_stack e @ [snap e]
      in e\<lparr>undo_stack := (if length us > 300 then tl us else us)\<rparr>)"

definition get_text :: "editor \<Rightarrow> string" where
  "get_text e = rstrip blank (py_slice_to (tape e) (visible_length e))"

definition clear_redo :: "editor \<Rightarrow> editor" where
  "clear_redo e = e\<lparr>redo_stack := []\<rparr>"

subsection \<open>Editing operations\<close>

fun type_loop :: "string \<Rightarrow> editor \<Rightarrow> outcome \<times> editor" where
  \<comment> \<open>the \<open>for ch in text\<close> loop of \<open>type_text\<close>\<close>
  "type_loop [] e = (Done, e)"
| "type_loop (ch # rest) e =
     (if mode e = Insert then
        (let t1 = py_insert (tape e) (head e) ch in
         case py_pop t1 of
           None \<Rightarrow> (IndexError, e\<lparr>tape := t1\<rparr>)
         | Some t2 \<Rightarrow> type_loop rest (e\<lparr>tape := t2, head := head e + 1\<rparr>))
      else
        (case py_setitem (tape e) (head e) ch of
           None \<Rightarrow> (IndexError, e)
         | Some t1 \<Rightarrow> type_loop rest (e\<lparr>tape := t1, head := head e + 1\<rparr>)))"

definition type_text :: "string \<Rightarrow> editor \<Rightarrow> outcome \<times> editor" where
  "type_text text e =
     (if text = [] then (Done, e)
      else case type_loop text ((save_state e)\<lparr>state := ''Typing''\<rparr>) of
             (Done, e') \<Rightarrow> (Done, clear_redo e')
           | (err, e') \<Rightarrow> (err, e'))"

definition backspace :: "editor \<Rightarrow> outcome \<times> editor" where
  "backspace e =
     (if head e = 0 then (NothingToDelete, e)
      else
        (let e1 = (save_state e)\<lparr>state := ''Delete'', head := head e - 1\<rparr> in
         case py_getitem (tape e1) (head e1) of
           None \<Rightarrow> (IndexError, e1)
         | Some deleted \<Rightarrow>
             (case py_setitem (tape e1) (head e1) blank of
                None \<Rightarrow> (IndexError, e1)
              | Some t1 \<Rightarrow> (Deleted deleted, clear_redo (e1\<lparr>tape := t1\<rparr>)))))"

definition move_left :: "editor \<Rightarrow> editor" where
  "move_left e =
     (let e1 = e\<lparr>state := ''Move_Left''\<rparr>
      in if head e1 > 0 then e1\<lparr>head := head e1 - 1\<rparr> else e1)"

definition move_right :: "editor \<Rightarrow> editor" where
  "move_right e =
     (let e1 = e\<lparr>state := ''Move_Right''\<rparr>
      in if head e1 < int (length (tape e1)) - 1 then e1\<lparr>head := head e1 + 1\<rparr> else e1)"

definition move_start :: "editor \<Rightarrow> editor" where
  "move_start e = e\<lparr>state := ''Move_Start'', head := 0\<rparr>"

definition move_end :: "editor \<Rightarrow> editor" where
  "move_end e = e\<lparr>state := ''Move_End'', head := visible_length e - 1\<rparr>"

definition undo :: "editor \<Rightarrow> outcome \<times> editor" where
  "undo e =
     (if undo_stack e = [] then (NothingToUndo, e)
      else
        (case last (undo_stack e) of (t, h, m) \<Rightarrow>
           (Done, e\<lparr>state := ''Undo'', redo_stack := redo_stack e @ [snap e],
                    undo_stack := butlast (undo_stack e), tape := t, head := h, mode := m\<rparr>)))"

definition redo :: "editor \<Rightarrow> outcome \<times> editor" where
  "redo e =
     (if redo_stack e = [] then (NothingToRedo, e)
      else
        (case last (redo_stack e) of (t, h, m) \<Rightarrow>
           (Done, e\<lparr>state := ''Redo'', undo_stack := undo_stack e @ [snap e],
                    redo_stack := butlast (redo_stack e), tape := t, head := h, mode := m\<rparr>)))"

definition toggle_mode :: "editor \<Rightarrow> editor" where
  "toggle_mode e = e\<lparr>mode := (if mode e = Insert then Overwrite else Insert)\<rparr>"

definition clear_all :: "editor \<Rightarrow> editor" where
  "clear_all e =
     (let e1 = save_state e
      in e1\<lparr>tape := replicate (length (tape e1)) blank, head := 0, state := ''Clear''\<rparr>)"

fun assign_all :: "(nat \<times> char) list \<Rightarrow> char list \<Rightarrow> outcome \<times> char list" where
  \<comment> \<open>a loop of \<open>tape[i] = ch\<close> statements, stopped by the first IndexError\<close>
  "assign_all [] t = (Done, t)"
| "assign_all ((i, ch) # rest) t =
     (case py_setitem t (int i) ch of
        None \<Rightarrow> (IndexError, t)
      | Some t1 \<Rightarrow> assign_all rest t1)"

definition replace_text :: "string \<Rightarrow> string \<Rightarrow> editor \<Rightarrow> outcome \<times> editor" where
  "replace_text old new e =
     (let e1 = save_state e;
          text = py_replace (get_text e1) old new
      in case assign_all (enumerate 0 text) (tape e1) of
           (Done, t1) \<Rightarrow>
             (case assign_all (map (\<lambda>j. (j, blank)) [length text ..< length t1]) t1 of
                (r, t2) \<Rightarrow> (r, e1\<lparr>tape := t2\<rparr>))
         | (err, t1) \<Rightarrow> (err, e1\<lparr>tape := t1\<rparr>))"

definition load_from_file :: "string option \<Rightarrow> editor \<Rightarrow> outcome \<times> editor" where
  \<comment> \<open>The argument is what \<open>open(filename).read()\<close> gives: \<open>None\<close> is FileNotFoundError.\<close>
  "load_from_file src e =
     (case src of
        None \<Rightarrow> (FileNotFound, e)
      | Some content \<Rightarrow>
          (let e1 = save_state e
           in (Done, e1\<lparr>tape := content @
                          replicate (nat (int (length (tape e1)) - int (length content))) blank,
                        head := int (length content)\<rparr>)))"

subsection \<open>Sessions\<close>

datatype command =
    TypeText string
  | Backspace
  | MoveLeft
  | MoveRight
  | MoveStart
  | MoveEnd
  | Undo
  | Redo
  | ToggleMode
  | ClearAll
  | ReplaceText string string
  | LoadFromFile "string option"

fun exec :: "command \<Rightarrow> editor \<Rightarrow> outcome \<times> editor" where
  "exec (TypeText text) e = type_text text e"
| "exec Backspace e = backspace e"
| "exec MoveLeft e = (Done, move_left e)"
| "exec MoveRight e = (Done, move_right e)"
| "exec MoveStart e = (Done, move_start e)"
| "exec MoveEnd e = (Done, move_end e)"
| "exec Undo e = undo e"
| "exec Redo e = redo e"
| "exec ToggleMode e = (Done, toggle_mode e)"
| "exec ClearAll e = (Done, clear_all e)"
| "exec (ReplaceText old new) e = replace_text old new e"
| "exec (LoadFromFile src) e = load_from_file src e"

fun run :: "command list \<Rightarrow> editor \<Rightarrow> editor" where
  \<comment> \<open>a session: the driver goes on after an error message or a caught exception\<close>
  "run [] e = e"
| "run (c # cs) e = run cs (snd (exec c e))"

definition reachable :: "int \<Rightarrow> editor \<Rightarrow> bool" where
  "reachable n e = (\<exists>cs. e = run cs (init n))"

subsection \<open>Sample sessions\<close>

definition scenario_ab :: editor where
  \<comment> \<open>a tape of ten slots after typing \<open>ab\<close>: head 2, one snapshot to undo\<close>
  "scenario_ab = run [TypeText ''ab''] (init 10)"

definition session_overwrite :: editor where
  \<comment> \<open>the default editor after \<open>type a\<close>, \<open>undo\<close>, \<open>mode\<close>: overwrite mode, head 0, one snapshot to redo\<close>
  "session_overwrite = run [TypeText ''a'', Undo, ToggleMode] (init 300)"

definition session_far_head :: editor where
  \<comment> \<open>the default editor after typing 302 symbols, \<open>clear\<close>, \<open>undo\<close>: head 302, one snapshot to redo\<close>
  "session_far_head = run [TypeText (replicate 302 CHR ''x''), ClearAll, Undo] (init 300)"

definition heads_ok :: "editor \<Rightarrow> bool" where
  \<comment> \<open>no negative head, live or in a snapshot\<close>
  "heads_ok e =
     (0 \<le> head e \<and> list_all (\<lambda>(t, h, m). 0 \<le> h) (undo_stack e) \<and>
      list_all (\<lambda>(t, h, m). 0 \<le> h) (redo_stack e))"

section \<open>Properties\<close>

lemma save_state_frame [simp]:
  "tape (save_state e) = tape e" "head (save_state e) = head e"
  "mode (save_state e) = mode e" "redo_stack (save_state e) = redo_stack e"
  "state (save_state e) = state e"
  by (simp_all add: save_state_def Let_def)

lemma save_state_last [simp]:
  "undo_stack (save_state e) \<noteq> []" "last (undo_stack (save_state e)) = snap e"
  by (cases "undo_stack e"; simp add: save_state_def Let_def)+

subsection \<open>What the stacks hold after an edit\<close>

lemma py_pop_insert: "py_pop (py_insert xs i v) \<noteq> None"
  by (simp add: py_pop_def py_insert_def Let_def)

lemma type_loop_stacks:
  "undo_stack (snd (type_loop text e)) = undo_stack e \<and>
   redo_stack (snd (type_loop text e)) = redo_stack e"
  by (induction "text" arbitrary: e) (auto simp: Let_def split: option.splits)

lemma type_text_undo_stack:
  "text \<noteq> [] \<Longrightarrow> undo_stack (snd (type_text text e)) = undo_stack (save_state e)"
  using type_loop_stacks [of "text" "(save_state e)\<lparr>state := ''Typing''\<rparr>"]
  by (auto simp: type_text_def clear_redo_def split: prod.splits outcome.splits)

lemma backspace_undo_stack:
  "head e \<noteq> 0 \<Longrightarrow> undo_stack (snd (backspace e)) = undo_stack (save_state e)"
  by (simp add: backspace_def Let_def clear_redo_def split: option.splits)

lemma clear_all_stacks:
  "undo_stack (clear_all e) = undo_stack (save_state e)"
  "redo_stack (clear_all e) = redo_stack e"
  by (simp_all add: clear_all_def Let_def)

lemma replace_text_stacks:
  "undo_stack (snd (replace_text old new e)) = undo_stack (save_state e)"
  "redo_stack (snd (replace_text old new e)) = redo_stack e"
  by (simp_all add: replace_text_def Let_def split: prod.splits outcome.splits)

lemma undo_pops_last:
  "undo_stack e \<noteq> [] \<Longrightarrow> fst (undo e) = Done \<and> snap (snd (undo e)) = last (undo_stack e)"
  by (simp add: undo_def snap_def split: prod.splits)

lemma undo_after_save:
  "undo_stack e' = undo_stack (save_state e) \<Longrightarrow>
   fst (undo e') = Done \<and> snap (snd (undo e')) = snap e"
  using undo_pops_last [of e'] by simp

text \<open>
  C1. An undo called right after one edit (\<open>type_text\<close> of a non-empty text, a
  \<open>backspace\<close> with the head past slot 0, \<open>clear_all\<close>, \<open>replace_text\<close>) succeeds
  and brings back the tape, head and mode that held before the edit. The editor before
  the edit is arbitrary, so the undo stack may hold any number of snapshots, the bound of
  300 included, and the edit may have been cut short by an IndexError.
\<close>

theorem undo_after_edit_restores:
  "(text \<noteq> [] \<longrightarrow>
      fst (undo (snd (type_text text e))) = Done \<and>
      snap (snd (undo (snd (type_text text e)))) = snap e) \<and>
   (0 < head e \<longrightarrow>
      fst (undo (snd (backspace e))) = Done \<and>
      snap (snd (undo (snd (backspace e)))) = snap e) \<and>
   fst (undo (clear_all e)) = Done \<and>
   snap (snd (undo (clear_all e))) = snap e \<and>
   fst (undo (snd (replace_text old new e))) = Done \<and>
   snap (snd (undo (snd (replace_text old new e)))) = snap e"
  using undo_after_save [OF type_text_undo_stack, of "text" e]
    undo_after_save [OF backspace_undo_stack, of e]
    undo_after_save [OF clear_all_stacks(1), of e]
    undo_after_save [OF replace_text_stacks(1), of old new e]
  by simp

theorem undo_after_edit_restores_witness:
  "''cd'' \<noteq> [] \<and> 0 < head scenario_ab \<and>
   fst (undo (snd (type_text ''cd'' scenario_ab))) = Done \<and>
   snap (snd (undo (snd (type_text ''cd'' scenario_ab)))) = snap scenario_ab \<and>
   fst (undo (snd (backspace scenario_ab))) = Done \<and>
   snap (snd (undo (snd (backspace scenario_ab)))) = snap scenario_ab \<and>
   snap (snd (undo (clear_all scenario_ab))) = snap scenario_ab \<and>
   snap (snd (undo (snd (replace_text ''a'' ''xyz'' scenario_ab)))) = snap scenario_ab"
proof -
  have h: "0 < head scenario_ab"
    by code_simp
  from undo_after_edit_restores [of "''cd''" scenario_ab "''a''" "''xyz''"] h
  show ?thesis by simp
qed

text \<open>
  C2. With a snapshot on the undo stack, an undo followed at once by a redo both succeed
  and leave the tape, head and mode as they were before the undo.
\<close>

theorem undo_then_redo_identity:
  "undo_stack e \<noteq> [] \<Longrightarrow>
   fst (undo e) = Done \<and> fst (redo (snd (undo e))) = Done \<and>
   snap (snd (redo (snd (undo e)))) = snap e"
  by (simp add: undo_def redo_def snap_def split: prod.splits)

theorem undo_then_redo_identity_witness:
  "undo_stack scenario_ab \<noteq> [] \<and>
   fst (undo scenario_ab) = Done \<and> fst (redo (snd (undo scenario_ab))) = Done \<and>
   snap (snd (redo (snd (undo scenario_ab)))) = snap scenario_ab"
proof -
  have h: "undo_stack scenario_ab \<noteq> []"
    by code_simp
  from undo_then_redo_identity [OF h] h show ?thesis by simp
qed

text \<open>
  A \<open>type_text\<close> of a non-empty text and a \<open>backspace\<close> past slot 0 that run to
  their end leave the redo stack empty, so a redo that follows reports NothingToRedo.
\<close>

lemma completed_edits_clear_redo:
  "(text \<noteq> [] \<and> fst (type_text text e) = Done \<longrightarrow>
      redo_stack (snd (type_text text e)) = [] \<and>
      redo (snd (type_text text e)) = (NothingToRedo, snd (type_text text e))) \<and>
   (0 < head e \<and> fst (backspace e) = Deleted c \<longrightarrow>
      redo_stack (snd (backspace e)) = [] \<and>
      redo (snd (backspace e)) = (NothingToRedo, snd (backspace e)))"
  by (auto simp: type_text_def backspace_def Let_def clear_redo_def redo_def
      split: prod.splits outcome.splits option.splits)

text \<open>
  C9. \<open>clear_all\<close> and \<open>replace_text\<close> push their snapshot as \<open>save_state\<close> does and
  leave the redo stack exactly as it was; \<open>clear_all\<close> blanks every slot of the tape.
\<close>

theorem clear_and_replace_keep_redo:
  "redo_stack (clear_all e) = redo_stack e \<and>
   undo_stack (clear_all e) = undo_stack (save_state e) \<and>
   tape (clear_all e) = replicate (length (tape e)) blank \<and>
   redo_stack (snd (replace_text old new e)) = redo_stack e \<and>
   undo_stack (snd (replace_text old new e)) = undo_stack (save_state e)"
  by (simp add: clear_all_stacks replace_text_stacks) (simp add: clear_all_def Let_def)

text \<open>
  C10. The blank is the character \<open>_\<close> itself: on a fresh editor of 300 slots, in
  insert mode, typing \<open>a_\<close> and reading the text back gives \<open>a\<close>; the typed
  underscore is stripped with the blanks.
\<close>

theorem trailing_underscore_lost:
  "mode (init 300) = Insert \<and>
   fst (type_text ''a_'' (init 300)) = Done \<and>
   take 2 (tape (snd (type_text ''a_'' (init 300)))) = ''a_'' \<and>
   get_text (snd (type_text ''a_'' (init 300))) = ''a''"
  by code_simp

subsection \<open>The head, the tape length and the capacity\<close>

lemma py_setitem_length: "py_setitem xs i v = Some ys \<Longrightarrow> length ys = length xs"
  by (auto simp: py_setitem_def split: option.splits)

lemma py_pop_insert_length:
  "py_pop (py_insert xs i v) = Some ys \<Longrightarrow> length ys = length xs"
  by (auto simp: py_pop_def py_insert_def Let_def split: if_splits)

lemma type_loop_insert:
  "mode e = Insert \<Longrightarrow>
   fst (type_loop s e) = Done \<and> head (snd (type_loop s e)) = head e + int (length s)"
proof (induction s arbitrary: e)
  case Nil
  then show ?case by simp
next
  case (Cons ch rest)
  obtain t2 where t2: "py_pop (py_insert (tape e) (head e) ch) = Some t2"
    using py_pop_insert [of "tape e" "head e" ch] by auto
  from Cons.IH [of "e\<lparr>tape := t2, head := head e + 1\<rparr>"] Cons.prems t2
  show ?case by (simp add: Let_def)
qed

lemma type_loop_length: "length (tape (snd (type_loop s e))) = length (tape e)"
proof (induction s arbitrary: e)
  case Nil
  then show ?case by simp
next
  case (Cons ch rest)
  show ?case
  proof (cases "mode e = Insert")
    case True
    obtain t2 where t2: "py_pop (py_insert (tape e) (head e) ch) = Some t2"
      using py_pop_insert [of "tape e" "head e" ch] by auto
    from Cons.IH [of "e\<lparr>tape := t2, head := head e + 1\<rparr>"] True t2
      py_pop_insert_length [OF t2]
    show ?thesis by (simp add: Let_def)
  next
    case False
    show ?thesis
    proof (cases "py_setitem (tape e) (head e) ch")
      case None
      with False show ?thesis by simp
    next
      case (Some t1)
      from Cons.IH [of "e\<lparr>tape := t1, head := head e + 1\<rparr>"] False Some
        py_setitem_length [OF Some]
      show ?thesis by simp
    qed
  qed
qed

lemma type_text_insert:
  "mode e = Insert \<Longrightarrow>
   fst (type_text s e) = Done \<and> head (snd (type_text s e)) = head e + int (length s)"
  using type_loop_insert [of "(save_state e)\<lparr>state := ''Typing''\<rparr>" s]
  by (auto simp: type_text_def clear_redo_def split: prod.splits outcome.splits)

lemma type_text_length: "length (tape (snd (type_text s e))) = length (tape e)"
  using type_loop_length [of s "(save_state e)\<lparr>state := ''Typing''\<rparr>"]
  by (auto simp: type_text_def clear_redo_def split: prod.splits outcome.splits)

text \<open>
  C3. The head is not kept below the capacity. On the default tape of 300 slots, typing
  300 symbols in insert mode returns normally with the head at 300, one past the last
  slot 299; typing 500 leaves it at 500 on a tape that still has 300 slots; and loading
  300 characters sets it to 300. \<open>type_text\<close> adds one per symbol and
  \<open>load_from_file\<close> stores the length of the content, neither with the bound that
  \<open>move_right\<close> checks.
\<close>

theorem head_passes_last_slot:
  "length (tape (init 300)) = 300 \<and>
   fst (type_text (replicate 300 CHR ''x'') (init 300)) = Done \<and>
   head (snd (type_text (replicate 300 CHR ''x'') (init 300))) = 300 \<and>
   head (snd (type_text (replicate 500 CHR ''x'') (init 300))) = 500 \<and>
   length (tape (snd (type_text (replicate 500 CHR ''x'') (init 300)))) = 300 \<and>
   head (snd (load_from_file (Some (replicate 300 CHR ''x'')) (init 300))) = 300"
proof -
  have m: "mode (init 300) = Insert" and h: "head (init 300) = 0"
    and l: "length (tape (init 300)) = 300"
    by (simp_all add: init_def)
  from m h l type_text_insert [of "init 300" "replicate 300 CHR ''x''"]
    type_text_insert [of "init 300" "replicate 500 CHR ''x''"]
    type_text_length [of "replicate 500 CHR ''x''" "init 300"]
  show ?thesis by (simp add: load_from_file_def Let_def)
qed

text \<open>
  C4. Loading content longer than the tape replaces the tape by a longer one: the padding
  \<open>["_"] * (len(self.tape) - len(content))\<close> is empty for a negative count, so after
  loading 301 characters into the default editor the tape has 301 slots.
\<close>

theorem load_resizes_tape:
  "length (tape (init 300)) = 300 \<and>
   fst (load_from_file (Some (replicate 301 CHR ''x'')) (init 300)) = Done \<and>
   length (tape (snd (load_from_file (Some (replicate 301 CHR ''x'')) (init 300)))) = 301"
  by (simp add: load_from_file_def init_def Let_def)

lemma type_loop_overwrite_overflow:
  "mode e = Overwrite \<Longrightarrow> 0 \<le> head e \<Longrightarrow> head e \<le> int (length (tape e)) \<Longrightarrow>
   int (length (tape e)) < head e + int (length s) \<Longrightarrow> fst (type_loop s e) = IndexError"
proof (induction s arbitrary: e)
  case Nil
  then show ?case by simp
next
  case (Cons ch rest)
  show ?case
  proof (cases "py_setitem (tape e) (head e) ch")
    case None
    with Cons.prems show ?thesis by simp
  next
    case (Some t1)
    with Cons.prems have lt: "head e < int (length (tape e))"
      by (auto simp: py_setitem_def py_index_def split: if_splits)
    from Cons.IH [of "e\<lparr>tape := t1, head := head e + 1\<rparr>"] Cons.prems Some lt
      py_setitem_length [OF Some]
    show ?thesis by simp
  qed
qed

lemma type_text_overwrite_overflow:
  "mode e = Overwrite \<Longrightarrow> 0 \<le> head e \<Longrightarrow> head e \<le> int (length (tape e)) \<Longrightarrow>
   int (length (tape e)) < head e + int (length s) \<Longrightarrow> fst (type_text s e) = IndexError"
  using type_loop_overwrite_overflow [of "(save_state e)\<lparr>state := ''Typing''\<rparr>" s]
  by (auto simp: type_text_def split: prod.splits outcome.splits)

lemma assign_all_overflow:
  "i \<le> length t \<Longrightarrow> length t < i + length s \<Longrightarrow>
   fst (assign_all (enumerate i s) t) = IndexError"
proof (induction s arbitrary: i t)
  case Nil
  then show ?case by simp
next
  case (Cons ch rest)
  show ?case
  proof (cases "py_setitem t (int i) ch")
    case None
    then show ?thesis by simp
  next
    case (Some t1)
    then have lt: "i < length t"
      by (auto simp: py_setitem_def py_index_def split: if_splits)
    from Cons.IH [of "Suc i" t1] Cons.prems py_setitem_length [OF Some] Some lt
    show ?thesis by simp
  qed
qed

lemma get_text_save_state: "get_text (save_state e) = get_text e"
  by (simp add: get_text_def visible_length_def)

lemma replace_text_overflow:
  "length (tape e) < length (py_replace (get_text e) old new) \<Longrightarrow>
   fst (replace_text old new e) = IndexError"
  using assign_all_overflow [of 0 "tape e" "py_replace (get_text e) old new"]
  by (auto simp: replace_text_def Let_def get_text_save_state split: prod.splits outcome.splits)

text \<open>
  C5. Two operations raise on the default tape of 300 slots. In overwrite mode, typing
  301 symbols raises IndexError at the last one, when \<open>self.tape[self.head] = ch\<close> is
  reached with the head at 300. After typing \<open>a\<close>, replacing \<open>a\<close> by 301 symbols
  raises IndexError when \<open>self.tape[i] = ch\<close> is reached with \<open>i = 300\<close>.
\<close>

theorem edits_raise_past_capacity:
  "fst (type_text (replicate 301 CHR ''x'') (toggle_mode (init 300))) = IndexError \<and>
   fst (replace_text ''a'' (replicate 301 CHR ''b'') (snd (type_text ''a'' (init 300))))
     = IndexError"
proof -
  have "fst (type_text (replicate 301 CHR ''x'') (toggle_mode (init 300))) = IndexError"
    by (rule type_text_overwrite_overflow) (simp_all add: toggle_mode_def init_def)
  moreover have g: "get_text (snd (type_text ''a'' (init 300))) = ''a''"
    by code_simp
  have l: "length (tape (snd (type_text ''a'' (init 300)))) = 300"
    by (simp add: type_text_length init_def)
  have r: "py_replace ''a'' ''a'' (replicate 301 CHR ''b'') = replicate 301 CHR ''b''"
    by (simp add: py_replace_def)
  have "fst (replace_text ''a'' (replicate 301 CHR ''b'') (snd (type_text ''a'' (init 300))))
     = IndexError"
    by (rule replace_text_overflow) (simp add: g l r)
  ultimately show ?thesis by simp
qed

lemma type_text_raised_keeps_redo:
  "fst (type_text s e) \<noteq> Done \<Longrightarrow> redo_stack (snd (type_text s e)) = redo_stack e"
  using type_loop_stacks [of s "(save_state e)\<lparr>state := ''Typing''\<rparr>"]
  by (auto simp: type_text_def split: prod.splits outcome.splits if_splits)

lemma backspace_past_tape:
  "int (length (tape e)) < head e \<Longrightarrow>
   fst (backspace e) = IndexError \<and> redo_stack (snd (backspace e)) = redo_stack e"
  by (simp add: backspace_def Let_def py_getitem_def py_index_def)

lemma redo_runs: "redo_stack e \<noteq> [] \<Longrightarrow> fst (redo e) = Done"
  by (simp add: redo_def split: prod.splits)

lemma undo_pushes_redo:
  "undo_stack e \<noteq> [] \<Longrightarrow> redo_stack (snd (undo e)) \<noteq> []"
  by (simp add: undo_def split: prod.splits)

lemma session_overwrite_facts:
  "mode session_overwrite = Overwrite" "head session_overwrite = 0"
  "length (tape session_overwrite) = 300" "redo_stack session_overwrite \<noteq> []"
proof -
  define e1 where "e1 = snd (type_text ''a'' (init 300))"
  have u: "undo_stack e1 = undo_stack (save_state (init 300))"
    by (simp add: e1_def type_text_undo_stack)
  from undo_after_save [OF u] have s: "snap (snd (undo e1)) = snap (init 300)"
    by simp
  from u have "undo_stack e1 \<noteq> []"
    by simp
  from undo_pushes_redo [OF this] have r: "redo_stack (snd (undo e1)) \<noteq> []" .
  have eq: "session_overwrite = toggle_mode (snd (undo e1))"
    by (simp add: session_overwrite_def e1_def)
  from s show "mode session_overwrite = Overwrite"
    by (simp add: eq toggle_mode_def snap_def init_def)
  from s show "head session_overwrite = 0"
    by (simp add: eq toggle_mode_def snap_def init_def)
  from s have "tape (snd (undo e1)) = tape (init 300)"
    by (simp add: snap_def)
  then show "length (tape session_overwrite) = 300"
    by (simp add: eq toggle_mode_def init_def)
  from r show "redo_stack session_overwrite \<noteq> []"
    by (simp add: eq toggle_mode_def)
qed

lemma session_far_head_facts:
  "head session_far_head = 302" "length (tape session_far_head) = 300"
  "redo_stack session_far_head \<noteq> []"
proof -
  define e1 where "e1 = snd (type_text (replicate 302 CHR ''x'') (init 300))"
  have m: "mode (init 300) = Insert" and h0: "head (init 300) = 0"
    by (simp_all add: init_def)
  from type_text_insert [OF m, of "replicate 302 CHR ''x''"] h0
  have h1: "head e1 = 302"
    by (simp add: e1_def)
  have l1: "length (tape e1) = 300"
    by (simp add: e1_def type_text_length init_def)
  from undo_after_save [OF clear_all_stacks(1), of e1]
  have s: "snap (snd (undo (clear_all e1))) = snap e1"
    by simp
  have "undo_stack (clear_all e1) \<noteq> []"
    by (simp add: clear_all_stacks)
  from undo_pushes_redo [OF this] have r: "redo_stack (snd (undo (clear_all e1))) \<noteq> []" .
  have eq: "session_far_head = snd (undo (clear_all e1))"
    by (simp add: session_far_head_def e1_def)
  from s h1 show "head session_far_head = 302"
    by (simp add: eq snap_def)
  from s l1 show "length (tape session_far_head) = 300"
    by (simp add: eq snap_def)
  from r show "redo_stack session_far_head \<noteq> []"
    by (simp add: eq)
qed

text \<open>
  C8. An edit that raises leaves the redo stack as it was. On the default editor after
  \<open>type a\<close>, \<open>undo\<close>, \<open>mode\<close>, typing 301 symbols (a non-empty text) raises
  IndexError at the last one, before \<open>clear_redo\<close> is reached, and the redo that follows
  succeeds. After typing 302 symbols, \<open>clear\<close> and \<open>undo\<close> the head is 302, a
  \<open>backspace\<close> (head past 0) raises IndexError at \<open>self.tape[301]\<close>, and again the
  redo that follows succeeds.
\<close>

theorem raised_edit_keeps_redo:
  "replicate 301 CHR ''x'' \<noteq> [] \<and>
   fst (type_text (replicate 301 CHR ''x'') session_overwrite) = IndexError \<and>
   redo_stack (snd (type_text (replicate 301 CHR ''x'') session_overwrite)) \<noteq> [] \<and>
   fst (redo (snd (type_text (replicate 301 CHR ''x'') session_overwrite))) = Done \<and>
   0 < head session_far_head \<and>
   fst (backspace session_far_head) = IndexError \<and>
   redo_stack (snd (backspace session_far_head)) \<noteq> [] \<and>
   fst (redo (snd (backspace session_far_head))) = Done"
proof -
  let ?s = "replicate 301 CHR ''x''"
  have t: "fst (type_text ?s session_overwrite) = IndexError"
    by (rule type_text_overwrite_overflow) (simp_all add: session_overwrite_facts)
  with type_text_raised_keeps_redo [of ?s session_overwrite]
  have tr: "redo_stack (snd (type_text ?s session_overwrite)) \<noteq> []"
    by (simp add: session_overwrite_facts)
  have b: "fst (backspace session_far_head) = IndexError"
    and br: "redo_stack (snd (backspace session_far_head)) \<noteq> []"
    using backspace_past_tape [of session_far_head]
    by (simp_all add: session_far_head_facts)
  from t tr b br redo_runs [OF tr] redo_runs [OF br] show ?thesis
    by (simp add: session_far_head_facts)
qed

lemma save_state_depth:
  "length (undo_stack (save_state e)) =
     (if 300 \<le> length (undo_stack e) then length (undo_stack e)
      else Suc (length (undo_stack e)))"
  by (simp add: save_state_def Let_def)

lemma save_state_evicts_oldest:
  "length (undo_stack e) = 300 \<Longrightarrow> undo_stack (save_state e) = tl (undo_stack e) @ [snap e]"
  by (cases "undo_stack e") (simp_all add: save_state_def Let_def)

lemma undo_depth:
  "undo_stack e \<noteq> [] \<Longrightarrow>
   length (undo_stack (snd (undo e))) = length (undo_stack e) - 1 \<and>
   length (redo_stack (snd (undo e))) = Suc (length (redo_stack e))"
  by (simp add: undo_def split: prod.splits)

lemma redo_depth:
  "redo_stack e \<noteq> [] \<Longrightarrow> length (undo_stack (snd (redo e))) = Suc (length (undo_stack e))"
  by (simp add: redo_def split: prod.splits)

lemma run_append: "run (cs @ ds) e = run ds (run cs e)"
  by (induction cs arbitrary: e) simp_all

lemma clear_all_run:
  "length (undo_stack e) \<le> 300 \<Longrightarrow>
   length (undo_stack (run (replicate n ClearAll) e)) = min 300 (length (undo_stack e) + n) \<and>
   redo_stack (run (replicate n ClearAll) e) = redo_stack e"
proof (induction n arbitrary: e)
  case 0
  then show ?case by simp
next
  case (Suc n)
  have "length (undo_stack (clear_all e)) \<le> 300"
    using Suc.prems by (simp add: clear_all_stacks save_state_depth)
  from Suc.IH [OF this] Suc.prems show ?case
    by (auto simp: clear_all_stacks save_state_depth)
qed

text \<open>
  C6. The push of \<open>redo\<close> does not go through \<open>save_state\<close> and has no bound. On the
  default editor, 300 calls of \<open>clear_all\<close> fill the undo stack, an undo takes one
  snapshot off and puts one on the redo stack, another \<open>clear_all\<close> (which keeps the redo
  stack) fills the undo stack again, and the redo then pushes snapshot number 301.
\<close>

theorem redo_push_is_unbounded:
  "length (undo_stack (run (replicate 300 ClearAll @ [Undo, ClearAll, Redo]) (init 300))) = 301"
proof -
  define e1 where "e1 = run (replicate 300 ClearAll) (init 300)"
  define e2 where "e2 = snd (undo e1)"
  define e3 where "e3 = clear_all e2"
  have u1: "length (undo_stack e1) = 300" and r1: "redo_stack e1 = []"
    using clear_all_run [of "init 300" 300] by (simp_all add: e1_def init_def)
  from u1 have "undo_stack e1 \<noteq> []" by auto
  from undo_depth [OF this] u1 r1
  have u2: "length (undo_stack e2) = 299" and r2: "length (redo_stack e2) = 1"
    by (simp_all add: e2_def)
  have u3: "length (undo_stack e3) = 300" and r3: "redo_stack e3 \<noteq> []"
    using u2 r2 by (auto simp: e3_def clear_all_stacks save_state_depth)
  from redo_depth [OF r3] u3 have "length (undo_stack (snd (redo e3))) = 301"
    by simp
  then show ?thesis
    by (simp add: run_append e1_def e2_def e3_def)
qed

subsection \<open>What every session keeps\<close>

text \<open>
  Two facts that do hold. Every operation but \<open>load_from_file\<close> of a longer content
  (and an undo or redo that brings back a tape of another length) keeps the number of
  slots, and the head of a reachable editor is never negative, so the indices of the
  model never wrap around as negative Python indices would.
\<close>

lemma assign_all_length: "length (snd (assign_all ps t)) = length t"
proof (induction ps arbitrary: t)
  case Nil
  then show ?case by simp
next
  case (Cons p ps)
  obtain i ch where p: "p = (i, ch)" by (cases p)
  show ?case
  proof (cases "py_setitem t (int i) ch")
    case None
    with p show ?thesis by simp
  next
    case (Some t1)
    from Cons.IH [of t1] py_setitem_length [OF Some] Some p show ?thesis by simp
  qed
qed

lemma backspace_length: "length (tape (snd (backspace e))) = length (tape e)"
  by (auto simp: backspace_def Let_def clear_redo_def py_setitem_length
      split: option.splits)

lemma replace_text_length: "length (tape (snd (replace_text old new e))) = length (tape e)"
proof -
  define new_text where "new_text = py_replace (get_text (save_state e)) old new"
  define r1 where "r1 = assign_all (enumerate 0 new_text) (tape e)"
  define r2 where "r2 = assign_all (map (\<lambda>j. (j, blank)) [length new_text ..< length (snd r1)]) (snd r1)"
  have l1: "length (snd r1) = length (tape e)"
    by (simp add: r1_def assign_all_length)
  have l2: "length (snd r2) = length (tape e)"
    by (simp add: r2_def assign_all_length l1)
  have "tape (snd (replace_text old new e)) = snd r1 \<or>
        tape (snd (replace_text old new e)) = snd r2"
    by (auto simp: replace_text_def Let_def r1_def r2_def new_text_def
        split: prod.splits outcome.splits)
  with l1 l2 show ?thesis by auto
qed

lemma load_from_file_length:
  "length content \<le> length (tape e) \<Longrightarrow>
   length (tape (snd (load_from_file (Some content) e))) = length (tape e)"
  by (simp add: load_from_file_def Let_def)

lemma other_operations_keep_length:
  "length (tape (move_left e)) = length (tape e)"
  "length (tape (move_right e)) = length (tape e)"
  "length (tape (move_start e)) = length (tape e)"
  "length (tape (move_end e)) = length (tape e)"
  "length (tape (toggle_mode e)) = length (tape e)"
  "length (tape (clear_all e)) = length (tape e)"
  by (simp_all add: move_left_def move_right_def move_start_def move_end_def
      toggle_mode_def clear_all_def Let_def)

lemma last_nonblank_lower: "- 1 \<le> last_nonblank t"
  by (simp add: last_nonblank_def split: list.splits)

lemma visible_length_lower: "head e + 1 \<le> visible_length e"
  by (simp add: visible_length_def)

lemma type_loop_head_lower: "head e \<le> head (snd (type_loop s e))"
proof (induction s arbitrary: e)
  case Nil
  then show ?case by simp
next
  case (Cons ch rest)
  show ?case
  proof (cases "mode e = Insert")
    case True
    obtain t2 where t2: "py_pop (py_insert (tape e) (head e) ch) = Some t2"
      using py_pop_insert [of "tape e" "head e" ch] by auto
    from Cons.IH [of "e\<lparr>tape := t2, head := head e + 1\<rparr>"] True t2
    show ?thesis by (simp add: Let_def)
  next
    case False
    show ?thesis
    proof (cases "py_setitem (tape e) (head e) ch")
      case None
      with False show ?thesis by simp
    next
      case (Some t1)
      from Cons.IH [of "e\<lparr>tape := t1, head := head e + 1\<rparr>"] False Some
      show ?thesis by simp
    qed
  qed
qed

lemma save_state_heads:
  "0 \<le> head e \<Longrightarrow> list_all (\<lambda>(t, h, m). 0 \<le> h) (undo_stack e) \<Longrightarrow>
   list_all (\<lambda>(t, h, m). 0 \<le> h) (undo_stack (save_state e))"
  by (cases "undo_stack e") (auto simp: save_state_def Let_def snap_def)

lemma list_all_last_butlast:
  "list_all P xs \<Longrightarrow> xs \<noteq> [] \<Longrightarrow> P (last xs) \<and> list_all P (butlast xs)"
  by (auto simp: list_all_iff dest: in_set_butlastD)

lemma type_text_heads_ok: "heads_ok e \<Longrightarrow> heads_ok (snd (type_text s e))"
proof (cases "s = []")
  case True
  assume "heads_ok e"
  with True show ?thesis by (simp add: type_text_def)
next
  case False
  assume ok: "heads_ok e"
  let ?e1 = "(save_state e)\<lparr>state := ''Typing''\<rparr>"
  from type_loop_head_lower [of ?e1 s] ok have h: "0 \<le> head (snd (type_loop s ?e1))"
    by (simp add: heads_ok_def)
  from type_loop_stacks [of s ?e1] save_state_heads [of e] ok
  have "list_all (\<lambda>(t, h, m). 0 \<le> h) (undo_stack (snd (type_loop s ?e1)))"
    and "list_all (\<lambda>(t, h, m). 0 \<le> h) (redo_stack (snd (type_loop s ?e1)))"
    by (simp_all add: heads_ok_def)
  with h False show ?thesis
    by (auto simp: type_text_def heads_ok_def clear_redo_def split: prod.splits outcome.splits)
qed

lemma backspace_heads_ok: "heads_ok e \<Longrightarrow> heads_ok (snd (backspace e))"
  using save_state_heads [of e]
  by (auto simp: backspace_def Let_def heads_ok_def clear_redo_def split: option.splits)

lemma undo_heads_ok: "heads_ok e \<Longrightarrow> heads_ok (snd (undo e))"
proof (cases "undo_stack e = []")
  case True
  assume "heads_ok e"
  with True show ?thesis by (simp add: undo_def)
next
  case False
  assume ok: "heads_ok e"
  from list_all_last_butlast [OF _ False, of "\<lambda>(t, h, m). 0 \<le> h"] ok False
  show ?thesis
    by (auto simp: undo_def heads_ok_def snap_def split: prod.splits)
qed

lemma redo_heads_ok: "heads_ok e \<Longrightarrow> heads_ok (snd (redo e))"
proof (cases "redo_stack e = []")
  case True
  assume "heads_ok e"
  with True show ?thesis by (simp add: redo_def)
next
  case False
  assume ok: "heads_ok e"
  from list_all_last_butlast [OF _ False, of "\<lambda>(t, h, m). 0 \<le> h"] ok False
  show ?thesis
    by (auto simp: redo_def heads_ok_def snap_def split: prod.splits)
qed

lemma replace_text_heads_ok: "heads_ok e \<Longrightarrow> heads_ok (snd (replace_text old new e))"
  using save_state_heads [of e] replace_text_stacks [of old new e]
  by (auto simp: heads_ok_def replace_text_def Let_def split: prod.splits outcome.splits)

lemma exec_heads_ok: "heads_ok e \<Longrightarrow> heads_ok (snd (exec c e))"
proof (cases c)
  case (TypeText s)
  assume "heads_ok e"
  with TypeText show ?thesis by (simp add: type_text_heads_ok)
next
  case Backspace
  assume "heads_ok e"
  with Backspace show ?thesis by (simp add: backspace_heads_ok)
next
  case MoveLeft
  assume "heads_ok e"
  with MoveLeft show ?thesis by (simp add: heads_ok_def move_left_def Let_def)
next
  case MoveRight
  assume "heads_ok e"
  with MoveRight show ?thesis by (simp add: heads_ok_def move_right_def Let_def)
next
  case MoveStart
  assume "heads_ok e"
  with MoveStart show ?thesis by (simp add: heads_ok_def move_start_def)
next
  case MoveEnd
  assume "heads_ok e"
  with MoveEnd visible_length_lower [of e] show ?thesis
    by (simp add: heads_ok_def move_end_def)
next
  case Undo
  assume "heads_ok e"
  with Undo show ?thesis by (simp add: undo_heads_ok)
next
  case Redo
  assume "heads_ok e"
  with Redo show ?thesis by (simp add: redo_heads_ok)
next
  case ToggleMode
  assume "heads_ok e"
  with ToggleMode show ?thesis by (simp add: heads_ok_def toggle_mode_def)
next
  case ClearAll
  assume "heads_ok e"
  with ClearAll save_state_heads [of e] show ?thesis
    by (simp add: heads_ok_def clear_all_def Let_def)
next
  case (ReplaceText old new)
  assume "heads_ok e"
  with ReplaceText show ?thesis by (simp add: replace_text_heads_ok)
next
  case (LoadFromFile src)
  assume "heads_ok e"
  with LoadFromFile save_state_heads [of e] show ?thesis
    by (auto simp: heads_ok_def load_from_file_def Let_def split: option.splits)
qed

lemma run_heads_ok: "heads_ok e \<Longrightarrow> heads_ok (run cs e)"
  by (induction cs arbitrary: e) (simp_all add: exec_heads_ok)

lemma reachable_head_nonneg: "reachable n e \<Longrightarrow> 0 \<le> head e"
proof -
  assume "reachable n e"
  then obtain cs where e: "e = run cs (init n)"
    by (auto simp: reachable_def)
  have "heads_ok (init n)"
    by (simp add: heads_ok_def init_def)
  from run_heads_ok [OF this, of cs] e show ?thesis
    by (simp add: heads_ok_def)
qed

text \<open>
  C7. A backspace at head 0, an undo with an empty undo stack and a redo with an empty
  redo stack each report their error and return the editor they were given, all six
  attributes untouched, so no snapshot is pushed either.
\<close>

theorem error_paths_change_nothing:
  "(head e = 0 \<longrightarrow> backspace e = (NothingToDelete, e)) \<and>
   (undo_stack e = [] \<longrightarrow> undo e = (NothingToUndo, e)) \<and>
   (redo_stack e = [] \<longrightarrow> redo e = (NothingToRedo, e))"
  by (simp add: backspace_def undo_def redo_def)

theorem error_paths_change_nothing_witness:
  "head (init 300) = 0 \<and> undo_stack (init 300) = [] \<and> redo_stack (init 300) = [] \<and>
   backspace (init 300) = (NothingToDelete, init 300) \<and>
   undo (init 300) = (NothingToUndo, init 300) \<and>
   redo (init 300) = (NothingToRedo, init 300)"
  using error_paths_change_nothing [of "init 300"] by (simp add: init_def)

end
